theory Spec2Isabelle
  imports Main "HOL-Library.AList" "HOL-Library.Sublist"
begin

section \<open>The gRPC gateway's URI matcher and message builder\<close>

text \<open>
  A shallow embedding of \<^verbatim>\<open>server/v2/api/grpcgateway/uri.go\<close>.

  A Go string is modelled as a \<^typ>\<open>string\<close>, one \<^typ>\<open>char\<close> per character. The
  regular expressions of the file only tell ASCII characters apart (the backslash, the
  braces, \<^verbatim>\<open>=\<close>, \<^verbatim>\<open>*\<close>, \<^verbatim>\<open>/\<close> and the line feed), so matching by
  character agrees with Go's matching by rune on well-formed UTF-8.

  A Go map is modelled as an association list with distinct keys. Its lookup is
  \<^const>\<open>map_of\<close>; a \<^verbatim>\<open>range\<close> loop visits the entries in the order of the list, which
  stands for the iteration order the runtime picked for that loop (Go does not fix it: two
  loops over the same map may see two permutations of the same entries).

  A run-time panic is a value of type \<open>panic\<close>, returned as \<open>Inl\<close>.
\<close>

datatype panic = IndexOutOfRange | RegexpCompile

abbreviation BS :: char where "BS \<equiv> CHR 0x5C"
abbreviation NL :: char where "NL \<equiv> CHR 0x0A"

subsection \<open>Library functions the file calls\<close>

text \<open>\<^verbatim>\<open>strings.TrimRight(s, "/")\<close>: every trailing \<^verbatim>\<open>/\<close> is removed.\<close>

definition TrimRight :: "string \<Rightarrow> string" where
  "TrimRight s = rev (dropWhile (\<lambda>c. c = CHR ''/'') (rev s))"

text \<open>\<^verbatim>\<open>regexp.QuoteMeta\<close>: a backslash before each of \<^verbatim>\<open>\.+*?()|[]{}^$\<close>.\<close>

definition special :: "char \<Rightarrow> bool" where
  "special c = (c = BS \<or> c \<in> set ''.+*?()|[]{}^$'')"

fun QuoteMeta :: "string \<Rightarrow> string" where
  "QuoteMeta [] = []"
| "QuoteMeta (c # cs) = (if special c then BS # c # QuoteMeta cs else c # QuoteMeta cs)"

subsection \<open>The fixed regular expressions of patternToRegex\<close>

text \<open>
  Both wildcard expressions have the shape: an escaped opening brace, one or more
  characters other than \<^verbatim>\<open>}\<close>, and a fixed closing text. \<open>brace_name close acc s\<close> reads
  the name after the opening brace: it extends the name one character at a time and stops
  as soon as the closing text follows, returning the name and the text after the match.
  For \<open>r1\<close> (\<^verbatim>\<open>[^}]+?\<close>, lazy) that is the shortest name. For \<open>r2\<close>
  (\<^verbatim>\<open>[^}]+\<close>, greedy) the closing text ends in \<^verbatim>\<open>}\<close>, which the name cannot hold, so only
  one name can match and the same scan finds it.
\<close>

fun brace_name :: "string \<Rightarrow> string \<Rightarrow> string \<Rightarrow> (string \<times> string) option" where
  "brace_name close acc [] = None"
| "brace_name close acc (c # cs) =
    (if c = CHR ''}'' then None
     else if prefix close cs then Some (acc @ [c], drop (length close) cs)
     else brace_name close (acc @ [c]) cs)"

text \<open>A match of the expression at the start of \<open>s\<close>: the matched text and the rest.\<close>

definition brace_match :: "string \<Rightarrow> string \<Rightarrow> (string \<times> string) option" where
  "brace_match close s =
    (if prefix [BS, CHR ''{''] s then
       (case brace_name close [] (drop 2 s) of
          None \<Rightarrow> None
        | Some (name, rest) \<Rightarrow> Some ([BS, CHR ''{''] @ name @ close, rest))
     else None)"

text \<open>\<open>r1\<close> is \<^verbatim>\<open>\\\{([^}]+?)=\\\*\\\*\\}\<close>, \<open>r2\<close> is \<^verbatim>\<open>\\\{([^}]+)\\}\<close>.\<close>

definition r1_close :: string where
  "r1_close = [CHR ''='', BS, CHR ''*'', BS, CHR ''*'', BS, CHR ''}'']"

definition r2_close :: string where
  "r2_close = [BS, CHR ''}'']"

text \<open>
  The callbacks read the wildcard's name out of the matched text with a second expression
  and \<^verbatim>\<open>FindStringSubmatch(match)[1]\<close>. The dot does not match a line feed, so the
  second expression can fail where the first matched; the search then goes on at the next
  opening brace of the matched text, and when nothing matches, indexing the nil result
  panics.

  \<open>upto_eq\<close> is \<^verbatim>\<open>(.+?)=\<close> and \<open>upto_close\<close> is \<^verbatim>\<open>(.*?)\\}\<close>, both at the start
  of the text; \<open>find_name\<close> is the leftmost match of \<^verbatim>\<open>\\\{\<close> followed by one of them.
\<close>

fun upto_eq :: "string \<Rightarrow> string \<Rightarrow> string option" where
  "upto_eq acc [] = None"
| "upto_eq acc (c # cs) =
    (if c = NL then None
     else if prefix ''='' cs then Some (acc @ [c])
     else upto_eq (acc @ [c]) cs)"

fun upto_close :: "string \<Rightarrow> string \<Rightarrow> string option" where
  "upto_close acc [] = None"
| "upto_close acc (c # cs) =
    (if prefix r2_close (c # cs) then Some acc
     else if c = NL then None
     else upto_close (acc @ [c]) cs)"

fun find_name :: "(string \<Rightarrow> string option) \<Rightarrow> string \<Rightarrow> string option" where
  "find_name grp [] = None"
| "find_name grp (c # cs) =
    (case (if prefix [BS, CHR ''{''] (c # cs) then grp (tl cs) else None) of
       Some name \<Rightarrow> Some name
     | None \<Rightarrow> find_name grp cs)"

definition r1_name :: "string \<Rightarrow> string option" where
  "r1_name m = find_name (upto_eq []) m"

definition r2_name :: "string \<Rightarrow> string option" where
  "r2_name m = find_name (upto_close []) m"

text \<open>
  \<^verbatim>\<open>ReplaceAllStringFunc\<close> for these expressions: the text is scanned from the left, each
  match (none is empty) is handed to the callback, which appends the name it extracts to
  \<^verbatim>\<open>wildcardNames\<close> and returns the replacement, and the scan goes on after the match.
  The result is the new text and the names appended, in the order of the calls.
\<close>

lemma brace_name_shorter:
  "brace_name close acc s = Some (name, rest) \<Longrightarrow> length rest \<le> length s"
  by (induction close acc s rule: brace_name.induct) (auto split: if_splits)

lemma brace_match_shorter:
  "brace_match close s = Some (m, rest) \<Longrightarrow> length rest < length s"
  by (cases s; cases "tl s")
    (auto simp: brace_match_def split: if_splits option.splits dest!: brace_name_shorter)

function ReplaceAllStringFunc ::
  "string \<Rightarrow> (string \<Rightarrow> string option) \<Rightarrow> string \<Rightarrow> string \<Rightarrow> panic + (string \<times> string list)"
where
  "ReplaceAllStringFunc close name_of repl [] = Inr ([], [])"
| "ReplaceAllStringFunc close name_of repl (c # cs) =
    (case brace_match close (c # cs) of
       None \<Rightarrow>
         (case ReplaceAllStringFunc close name_of repl cs of
            Inl p \<Rightarrow> Inl p
          | Inr (out, names) \<Rightarrow> Inr (c # out, names))
     | Some (m, rest) \<Rightarrow>
         (case name_of m of
            None \<Rightarrow> Inl IndexOutOfRange
          | Some name \<Rightarrow>
              (case ReplaceAllStringFunc close name_of repl rest of
                 Inl p \<Rightarrow> Inl p
               | Inr (out, names) \<Rightarrow> Inr (repl @ out, name # names))))"
  by pat_completeness auto
termination
  by (relation "measure (\<lambda>(close, name_of, repl, s). length s)")
    (auto dest: brace_match_shorter)

subsection \<open>patternToRegex\<close>

definition patternToRegex :: "string \<Rightarrow> panic + (string \<times> string list)" where
  "patternToRegex pattern =
    (case ReplaceAllStringFunc r1_close r1_name ''(.+)'' (QuoteMeta pattern) of
       Inl p \<Rightarrow> Inl p
     | Inr (escaped1, names1) \<Rightarrow>
         (case ReplaceAllStringFunc r2_close r2_name ''([^/]+)'' escaped1 of
            Inl p \<Rightarrow> Inl p
          | Inr (escaped2, names2) \<Rightarrow>
              Inr (''^'' @ escaped2 @ ''$'', names1 @ names2)))"

subsection \<open>Compiling and running the generated expression\<close>

text \<open>
  The expressions patternToRegex generates are a start anchor, a sequence of literal
  characters (escaped when special) and of the two capture groups, and an end anchor.
  \<open>MustCompile\<close> parses exactly that fragment; any other text is outside the model and
  yields \<open>None\<close>, which matchURI turns into a panic.
\<close>

datatype atom = Lit char | AnyGroup | SegGroup

function parse_body :: "string \<Rightarrow> atom list option" where
  "parse_body [] = None"
| "parse_body (c # cs) =
    (if c = CHR ''$'' then (if cs = [] then Some [] else None)
     else if c = BS then
       (case cs of
          [] \<Rightarrow> None
        | d # ds \<Rightarrow> if special d then map_option ((#) (Lit d)) (parse_body ds) else None)
     else if c = CHR ''('' then
       (if prefix ''.+)'' cs then map_option ((#) AnyGroup) (parse_body (drop 3 cs))
        else if prefix ''[^/]+)'' cs then map_option ((#) SegGroup) (parse_body (drop 6 cs))
        else None)
     else if special c then None
     else map_option ((#) (Lit c)) (parse_body cs))"
  by pat_completeness auto
termination
  by (relation "measure length") auto

definition MustCompile :: "string \<Rightarrow> atom list option" where
  "MustCompile re = (case re of [] \<Rightarrow> None | c # cs \<Rightarrow> if c = CHR ''^'' then parse_body cs else None)"

text \<open>
  The texts of that fragment, token by token: a character that is not special, an escaped
  special character, or one of the two groups. It serves to show that \<open>MustCompile\<close>
  accepts every expression patternToRegex generates.
\<close>

inductive wf_re :: "string \<Rightarrow> bool" where
  Nil: "wf_re []"
| Lit: "\<not> special c \<Longrightarrow> wf_re s \<Longrightarrow> wf_re (c # s)"
| Esc: "special c \<Longrightarrow> wf_re s \<Longrightarrow> wf_re (BS # c # s)"
| Any: "wf_re s \<Longrightarrow> wf_re (''(.+)'' @ s)"
| Seg: "wf_re s \<Longrightarrow> wf_re (''([^/]+)'' @ s)"

code_pred wf_re .

text \<open>
  Matching is Go's: leftmost, and among the matches at one place the one a backtracking
  search finds first. Both groups are greedy, so a group first tries the longest run of
  characters it accepts and gives characters back one at a time, down to one character.
  \<open>(.+)\<close> accepts every character but the line feed, \<open>([^/]+)\<close> every character but
  \<^verbatim>\<open>/\<close>. The result is the list of the captured texts.
\<close>

definition accepts :: "atom \<Rightarrow> char \<Rightarrow> bool" where
  "accepts a c = (case a of Lit d \<Rightarrow> c = d | AnyGroup \<Rightarrow> c \<noteq> NL | SegGroup \<Rightarrow> c \<noteq> CHR ''/'')"

fun first_some :: "'a option list \<Rightarrow> 'a option" where
  "first_some [] = None"
| "first_some (None # xs) = first_some xs"
| "first_some (Some x # xs) = Some x"

fun match_atoms :: "atom list \<Rightarrow> string \<Rightarrow> string list option" where
  "match_atoms [] s = (if s = [] then Some [] else None)"
| "match_atoms (Lit d # as) s =
    (case s of [] \<Rightarrow> None | c # cs \<Rightarrow> if c = d then match_atoms as cs else None)"
| "match_atoms (g # as) s =
    first_some
      (map (\<lambda>k. map_option ((#) (take k s)) (match_atoms as (drop k s)))
         (rev [1 ..< Suc (length (takeWhile (accepts g) s))]))"

text \<open>
  \<^verbatim>\<open>FindStringSubmatch\<close>: nil when the text does not match, else the whole match followed
  by the captured texts.
\<close>

definition FindStringSubmatch :: "atom list \<Rightarrow> string \<Rightarrow> string list option" where
  "FindStringSubmatch re s = map_option ((#) s) (match_atoms re s)"



subsection \<open>matchURI\<close>

record URIMatch =
  QueryInputName :: string
  Params :: "(string \<times> string) list"

definition HasParams :: "URIMatch \<Rightarrow> bool" where
  "HasParams uri = (length (Params uri) > 0)"

text \<open>The loop \<^verbatim>\<open>for i, name := range wildcardNames { params[name] = matches[i+1] }\<close>.\<close>

fun fill_params ::
  "string list \<Rightarrow> string list \<Rightarrow> nat \<Rightarrow> (string \<times> string) list \<Rightarrow> panic + (string \<times> string) list"
where
  "fill_params matches [] i params = Inr params"
| "fill_params matches (name # names) i params =
    (if i + 1 < length matches
     then fill_params matches names (i + 1) (AList.update name (matches ! (i + 1)) params)
     else Inl IndexOutOfRange)"

text \<open>
  One turn of the loop over the table: \<open>Inr None\<close> when the loop goes on to the next
  entry, \<open>Inr (Some m)\<close> when it returns the match \<open>m\<close>.
\<close>

definition try_pattern :: "string \<Rightarrow> string \<times> string \<Rightarrow> panic + URIMatch option" where
  "try_pattern uri entry =
    (case entry of (getPattern, queryInputName) \<Rightarrow>
      (case patternToRegex (TrimRight getPattern) of
         Inl p \<Rightarrow> Inl p
       | Inr (regexPattern, wildcardNames) \<Rightarrow>
           (case MustCompile regexPattern of
              None \<Rightarrow> Inl RegexpCompile
            | Some regex \<Rightarrow>
                (case FindStringSubmatch regex uri of
                   None \<Rightarrow> Inr None
                 | Some matches \<Rightarrow>
                     if length matches > 1 then
                       (case fill_params matches wildcardNames 0 [] of
                          Inl p \<Rightarrow> Inl p
                        | Inr params \<Rightarrow>
                            Inr (Some \<lparr>QueryInputName = queryInputName, Params = params\<rparr>))
                     else Inr None))))"

fun range_loop :: "string \<Rightarrow> (string \<times> string) list \<Rightarrow> panic + URIMatch option" where
  "range_loop uri [] = Inr None"
| "range_loop uri (entry # entries) =
    (case try_pattern uri entry of
       Inl p \<Rightarrow> Inl p
     | Inr (Some m) \<Rightarrow> Inr (Some m)
     | Inr None \<Rightarrow> range_loop uri entries)"

text \<open>\<open>Inr None\<close> is the nil result: no match.\<close>

definition matchURI :: "string \<Rightarrow> (string \<times> string) list \<Rightarrow> panic + URIMatch option" where
  "matchURI uri getPatternToQueryInputName =
    (let uri = TrimRight uri in
     case map_of getPatternToQueryInputName uri of
       Some inputName \<Rightarrow> Inr (Some \<lparr>QueryInputName = inputName, Params = []\<rparr>)
     | None \<Rightarrow> range_loop uri getPatternToQueryInputName)"


subsection \<open>The message builder\<close>

text \<open>
  The collaborators of the two builders are parameters of the model, gathered in a record:
  \<^item> \<open>MessageType\<close> is \<^verbatim>\<open>gogoproto.MessageType\<close>: \<open>None\<close> is the nil type of a name
    that is not registered;
  \<^item> \<open>New\<close> is \<^verbatim>\<open>reflect.New(requestType.Elem()).Interface().(gogoproto.Message)\<close>:
    \<open>None\<close> when the type assertion fails;
  \<^item> \<open>Unmarshal\<close> is \<^verbatim>\<open>jsonpb.Unmarshal\<close>, given the bytes its reader can yield: the
    outcome (the error text or the message filled in) and the number of bytes it asked
    the reader for;
  \<^item> \<open>Fields\<close> lists the struct fields of a message, each with its Go name and the value
    of its \<^verbatim>\<open>protobuf\<close> tag;
  \<^item> \<open>NewDecoder\<close> and \<open>Decode\<close> are mapstructure's, with their error texts.
\<close>

record StructField =
  Name :: string
  protobufTag :: string

record ('ty, 'msg) env =
  MessageType :: "string \<Rightarrow> 'ty option"
  New :: "'ty \<Rightarrow> 'msg option"
  Unmarshal :: "string \<Rightarrow> 'msg \<Rightarrow> (string + 'msg) \<times> nat"
  Fields :: "'msg \<Rightarrow> StructField list"
  NewDecoder :: "'msg \<Rightarrow> string option"
  Decode :: "(string \<times> string) list \<Rightarrow> 'msg \<Rightarrow> string + 'msg"

text \<open>The errors, one per \<^verbatim>\<open>fmt.Errorf\<close> of the file, with the wrapped error's text.\<close>

datatype error =
    UnknownRequestType
  | FailedToCreateInstance
  | ErrorParsingBody string
  | FailedToCreateDecoder string
  | FailedToDecodeParams string

text \<open>
  The request body: the bytes not read yet, the number of bytes read so far, and the
  number of calls of \<^verbatim>\<open>Close\<close>.
\<close>

record Body =
  content :: string
  bytesRead :: nat
  closeCount :: nat

definition Close :: "Body \<Rightarrow> Body" where
  "Close b = b\<lparr>closeCount := closeCount b + 1\<rparr>"

definition MaxBodySize :: nat where
  "MaxBodySize = 2 ^ 20"

text \<open>
  \<^verbatim>\<open>io.LimitReader(r.Body, MaxBodySize)\<close> yields the first \<open>MaxBodySize\<close> bytes of the
  body and then the end of the stream. The function returns its result and the body as
  it leaves it; the deferred \<^verbatim>\<open>Close\<close> is registered after the two early returns.
\<close>

definition createMessageFromJSON ::
  "('ty, 'msg) env \<Rightarrow> URIMatch \<Rightarrow> Body \<Rightarrow> (error + 'msg) \<times> Body"
where
  "createMessageFromJSON env match r =
    (case MessageType env (QueryInputName match) of
       None \<Rightarrow> (Inl UnknownRequestType, r)
     | Some requestType \<Rightarrow>
         (case New env requestType of
            None \<Rightarrow> (Inl FailedToCreateInstance, r)
          | Some msg \<Rightarrow>
              (let limitedReader = take MaxBodySize (content r);
                   (res, asked) = Unmarshal env limitedReader msg;
                   n = min asked (length limitedReader);
                   r' = Close (r\<lparr>content := drop n (content r), bytesRead := bytesRead r + n\<rparr>)
               in case res of
                    Inl err \<Rightarrow> (Inl (ErrorParsingBody err), r')
                  | Inr m \<Rightarrow> (Inr m, r'))))"

text \<open>
  \<^verbatim>\<open>regexp.MustCompile(`name=(\w+)`).FindStringSubmatch(tag)\<close>: the leftmost
  \<^verbatim>\<open>name=\<close> that a word character follows, and the longest run of word characters there.
\<close>

definition is_word :: "char \<Rightarrow> bool" where
  "is_word c =
    (let n = (of_char c :: nat)
     in (48 \<le> n \<and> n \<le> 57) \<or> (65 \<le> n \<and> n \<le> 90) \<or> (97 \<le> n \<and> n \<le> 122) \<or> n = 95)"

fun tag_name :: "string \<Rightarrow> string option" where
  "tag_name [] = None"
| "tag_name (c # cs) =
    (if prefix ''name='' (c # cs) \<and> takeWhile is_word (drop 5 (c # cs)) \<noteq> []
     then Some (takeWhile is_word (drop 5 (c # cs)))
     else tag_name cs)"

text \<open>
  The inner loop over the fields: the Go name of the first field whose tag carries the key
  as its name, if any.
\<close>

fun find_field :: "string \<Rightarrow> StructField list \<Rightarrow> string option" where
  "find_field key [] = None"
| "find_field key (field # rest) =
    (case tag_name (protobufTag field) of
       None \<Rightarrow> find_field key rest
     | Some n \<Rightarrow> if n = key then Some (Name field) else find_field key rest)"

text \<open>The outer loop over \<^verbatim>\<open>match.Params\<close>, filling \<^verbatim>\<open>fieldMap\<close>.\<close>

fun build_fieldMap ::
  "StructField list \<Rightarrow> (string \<times> string) list \<Rightarrow> (string \<times> string) list \<Rightarrow> (string \<times> string) list"
where
  "build_fieldMap t [] fieldMap = fieldMap"
| "build_fieldMap t ((key, val) # params) fieldMap =
    build_fieldMap t params
      (case find_field key t of
         None \<Rightarrow> fieldMap
       | Some fname \<Rightarrow> AList.update fname val fieldMap)"

definition createMessage :: "('ty, 'msg) env \<Rightarrow> URIMatch \<Rightarrow> error + 'msg" where
  "createMessage env match =
    (case MessageType env (QueryInputName match) of
       None \<Rightarrow> Inl UnknownRequestType
     | Some requestType \<Rightarrow>
         (case New env requestType of
            None \<Rightarrow> Inl FailedToCreateInstance
          | Some msg \<Rightarrow>
              if HasParams match then
                (let fieldMap = build_fieldMap (Fields env msg) (Params match) []
                 in case NewDecoder env msg of
                      Some err \<Rightarrow> Inl (FailedToCreateDecoder err)
                    | None \<Rightarrow>
                        (case Decode env fieldMap msg of
                           Inl err \<Rightarrow> Inl (FailedToDecodeParams err)
                         | Inr m \<Rightarrow> Inr m))
              else Inr msg))"

text \<open>
  A registry with one message type, two fields and stand-ins for the codecs, to run the
  builders on concrete requests: the stand-in for \<^verbatim>\<open>jsonpb.Unmarshal\<close> accepts the
  empty object only and drains its reader, the stand-in for the mapstructure decoder
  stores the field map in the message.
\<close>

definition example_env :: "(string, (string \<times> string) list) env" where
  "example_env =
    \<lparr>MessageType = (\<lambda>name. if name = ''cosmos.bank.v1beta1.QueryBalanceRequest'' then Some name else None),
     New = (\<lambda>ty. Some []),
     Unmarshal = (\<lambda>bytes msg. (if bytes = ''{}'' then Inr msg else Inl ''unexpected EOF'', length bytes)),
     Fields = (\<lambda>msg. [\<lparr>Name = ''Address'', protobufTag = ''bytes,1,opt,name=address,proto3''\<rparr>,
                       \<lparr>Name = ''Denom'', protobufTag = ''bytes,2,opt,name=denom,proto3''\<rparr>,
                       \<lparr>Name = ''XXX_unrecognized'', protobufTag = ''''\<rparr>]),
     NewDecoder = (\<lambda>msg. None),
     Decode = (\<lambda>fieldMap msg. Inr (fieldMap @ msg))\<rparr>"

section \<open>Properties\<close>

subsection \<open>Auxiliary facts\<close>



lemma range_loop_all_none:
  "\<forall>e\<in>set tbl. try_pattern uri e = Inr None \<Longrightarrow> range_loop uri tbl = Inr None"
  by (induction tbl) auto

lemma range_loop_unique:
  "e \<in> set tbl \<Longrightarrow> try_pattern uri e \<noteq> Inr None \<Longrightarrow>
   \<forall>e'\<in>set tbl. try_pattern uri e' \<noteq> Inr None \<longrightarrow> e' = e \<Longrightarrow>
   range_loop uri tbl = try_pattern uri e"
proof (induction tbl)
  case Nil
  then show ?case by simp
next
  case (Cons x xs)
  show ?case
  proof (cases "x = e")
    case True
    with Cons.prems(2) show ?thesis
      by (cases "try_pattern uri e") (auto split: option.splits)
  next
    case False
    have x: "try_pattern uri x = Inr None"
      using Cons.prems(3) False by fastforce
    have "e \<in> set xs" using Cons.prems(1) False by simp
    moreover have "\<forall>e'\<in>set xs. try_pattern uri e' \<noteq> Inr None \<longrightarrow> e' = e"
      using Cons.prems(3) by simp
    ultimately have "range_loop uri xs = try_pattern uri e"
      using Cons.prems(2) by (intro Cons.IH)
    then show ?thesis by (simp add: x)
  qed
qed

lemma range_loop_order:
  assumes "set tbl = set tbl'"
    and "\<forall>e\<in>set tbl. \<forall>e'\<in>set tbl.
           try_pattern uri e \<noteq> Inr None \<longrightarrow> try_pattern uri e' \<noteq> Inr None \<longrightarrow> e = e'"
  shows "range_loop uri tbl = range_loop uri tbl'"
proof (cases "\<exists>e\<in>set tbl. try_pattern uri e \<noteq> Inr None")
  case True
  then obtain e where e: "e \<in> set tbl" "try_pattern uri e \<noteq> Inr None" by blast
  with assms(2) have u: "\<forall>e'\<in>set tbl. try_pattern uri e' \<noteq> Inr None \<longrightarrow> e' = e" by blast
  have e': "e \<in> set tbl'" using e(1) assms(1) by blast
  have u': "\<forall>e'\<in>set tbl'. try_pattern uri e' \<noteq> Inr None \<longrightarrow> e' = e" using u assms(1) by blast
  have "range_loop uri tbl = try_pattern uri e"
    using e u by (rule range_loop_unique)
  moreover have "range_loop uri tbl' = try_pattern uri e"
    using e' e(2) u' by (rule range_loop_unique)
  ultimately show ?thesis by simp
next
  case False
  then have n: "\<forall>e\<in>set tbl. try_pattern uri e = Inr None" by blast
  then have n': "\<forall>e\<in>set tbl'. try_pattern uri e = Inr None" using assms(1) by blast
  show ?thesis
    by (simp only: range_loop_all_none[OF n] range_loop_all_none[OF n'])
qed








lemma match_atoms_Lits:
  "match_atoms (map Lit t) s = (if s = t then Some [] else None)"
  by (induction t arbitrary: s) (auto split: list.splits)



















text \<open>
  Every expression patternToRegex generates is in the fragment \<open>MustCompile\<close> parses:
  the escaped template is a sequence of tokens, a wildcard match starts and ends at a token
  boundary, and replacing it by a group leaves a sequence of tokens.
\<close>

lemma wf_re_QuoteMeta: "wf_re (QuoteMeta t)"
  by (induction t) (auto intro: wf_re.intros)

lemma wf_re_parse: "wf_re s \<Longrightarrow> \<exists>as. parse_body (s @ ''$'') = Some as"
  by (induction rule: wf_re.induct) (auto simp: special_def)

lemma wf_re_not_special_hd: "wf_re (c # s) \<Longrightarrow> special c \<Longrightarrow> c = BS \<or> c = CHR ''(''"
  by (erule wf_re.cases) auto

lemma wf_re_Lit_tl: "wf_re (c # s) \<Longrightarrow> \<not> special c \<Longrightarrow> wf_re s"
  by (erule wf_re.cases) (auto simp: special_def)

lemma wf_re_Esc_tl: "wf_re (BS # c # s) \<Longrightarrow> special c \<and> wf_re s"
  by (erule wf_re.cases) (auto simp: special_def)

lemma wf_re_after_r1_close: "wf_re (r1_close @ rest) \<Longrightarrow> wf_re rest"
proof -
  assume "wf_re (r1_close @ rest)"
  then have "wf_re (BS # CHR ''*'' # BS # CHR ''*'' # BS # CHR ''}'' # rest)"
    by (auto simp: r1_close_def special_def dest: wf_re_Lit_tl)
  then have "wf_re (BS # CHR ''*'' # BS # CHR ''}'' # rest)" by (blast dest: wf_re_Esc_tl)
  then have "wf_re (BS # CHR ''}'' # rest)" by (blast dest: wf_re_Esc_tl)
  then show ?thesis by (blast dest: wf_re_Esc_tl)
qed

lemma wf_re_after_r2_close: "wf_re (r2_close @ rest) \<Longrightarrow> wf_re rest"
  by (auto simp: r2_close_def dest: wf_re_Esc_tl)

lemma wf_re_after_close:
  assumes "close = r1_close \<or> close = r2_close" "wf_re s" "prefix close s"
  shows "wf_re (drop (length close) s)"
proof -
  from assms(3) obtain rest where s: "s = close @ rest" by (auto simp: prefix_def)
  with assms(1,2) have "wf_re rest"
    by (auto dest: wf_re_after_r1_close wf_re_after_r2_close)
  with s show ?thesis by simp
qed


lemma close_hd:
  assumes "close = r1_close \<or> close = r2_close" "prefix close (c # s)"
  shows "c = CHR ''='' \<or> (c = BS \<and> (\<exists>s'. s = CHR ''}'' # s'))"
  using assms by (cases s) (auto simp: r1_close_def r2_close_def)

lemma wf_re_no_brace_hd: "\<not> wf_re (CHR ''}'' # s)" "\<not> wf_re (CHR ''{'' # s)"
  by (auto simp: special_def dest: wf_re_not_special_hd)

lemma brace_name_wf:
  assumes cl: "close = r1_close \<or> close = r2_close"
  shows "wf_re u \<Longrightarrow> brace_name close acc u = Some (name, rest) \<Longrightarrow> wf_re rest"
proof (induction u arbitrary: acc rule: wf_re.induct)
  case Nil
  then show ?case by simp
next
  case (Lit c s)
  then have "c \<noteq> CHR ''}''" by (auto simp: special_def)
  show ?case
  proof (cases "prefix close s")
    case True
    with Lit.prems \<open>c \<noteq> CHR ''}''\<close> have "rest = drop (length close) s" by simp
    with wf_re_after_close[OF cl Lit.hyps(2) True] show ?thesis by simp
  next
    case False
    with Lit.prems \<open>c \<noteq> CHR ''}''\<close> have "brace_name close (acc @ [c]) s = Some (name, rest)" by simp
    then show ?thesis by (rule Lit.IH)
  qed
next
  case (Esc c s)
  have np: "\<not> prefix close (c # s)"
  proof
    assume "prefix close (c # s)"
    from close_hd[OF cl this] Esc.hyps show False
      by (auto simp: special_def wf_re_no_brace_hd)
  qed
  with Esc.prems have 1: "brace_name close (acc @ [BS]) (c # s) = Some (name, rest)" by simp
  then have c: "c \<noteq> CHR ''}''" by (auto split: if_splits)
  show ?case
  proof (cases "prefix close s")
    case True
    with 1 c have "rest = drop (length close) s" by simp
    with wf_re_after_close[OF cl Esc.hyps(2) True] show ?thesis by simp
  next
    case False
    with 1 c have "brace_name close (acc @ [BS] @ [c]) s = Some (name, rest)" by simp
    then show ?thesis by (rule Esc.IH)
  qed
next
  case (Any s)
  have 1: "brace_name close acc (''(.+)'' @ s) = brace_name close (acc @ ''(.+'') ('')'' @ s)"
    using cl by (auto simp: r1_close_def r2_close_def)
  show ?case
  proof (cases "prefix close s")
    case True
    with Any.prems 1 have "rest = drop (length close) s" by simp
    with wf_re_after_close[OF cl Any.hyps(1) True] show ?thesis by simp
  next
    case False
    with Any.prems 1 have "brace_name close (acc @ ''(.+)'') s = Some (name, rest)" by simp
    then show ?thesis by (rule Any.IH)
  qed
next
  case (Seg s)
  have 1: "brace_name close acc (''([^/]+)'' @ s) = brace_name close (acc @ ''([^/]+'') ('')'' @ s)"
    using cl by (auto simp: r1_close_def r2_close_def)
  show ?case
  proof (cases "prefix close s")
    case True
    with Seg.prems 1 have "rest = drop (length close) s" by simp
    with wf_re_after_close[OF cl Seg.hyps(1) True] show ?thesis by simp
  next
    case False
    with Seg.prems 1 have "brace_name close (acc @ ''([^/]+)'') s = Some (name, rest)" by simp
    then show ?thesis by (rule Seg.IH)
  qed
qed


lemma Replace_Cons_None:
  "brace_match close (c # cs) = None \<Longrightarrow>
   ReplaceAllStringFunc close name_of repl (c # cs) = Inr (out, names) \<Longrightarrow>
   \<exists>out'. out = c # out' \<and> ReplaceAllStringFunc close name_of repl cs = Inr (out', names)"
  by (cases "ReplaceAllStringFunc close name_of repl cs") auto

lemma Replace_Cons_Some:
  "brace_match close (c # cs) = Some (m, rest) \<Longrightarrow>
   ReplaceAllStringFunc close name_of repl (c # cs) = Inr (out, names) \<Longrightarrow>
   \<exists>out' name names'. out = repl @ out' \<and> names = name # names' \<and> name_of m = Some name \<and>
      ReplaceAllStringFunc close name_of repl rest = Inr (out', names')"
  by (cases "name_of m"; cases "ReplaceAllStringFunc close name_of repl rest") auto

lemma brace_match_not_BS: "c \<noteq> BS \<Longrightarrow> brace_match close (c # cs) = None"
  by (simp add: brace_match_def)

lemma Replace_wf:
  assumes cl: "close = r1_close \<or> close = r2_close"
    and rp: "repl = ''(.+)'' \<or> repl = ''([^/]+)''"
  shows "wf_re s \<Longrightarrow> ReplaceAllStringFunc close name_of repl s = Inr (out, names) \<Longrightarrow> wf_re out"
proof (induction "length s" arbitrary: s out names rule: less_induct)
  case less
  note IH = less.hyps
  have wrepl: "wf_re (repl @ x)" if "wf_re x" for x
    using rp wf_re.Any[OF that] wf_re.Seg[OF that] by (elim disjE) (simp_all only:)
  from less.prems(1) show ?case
  proof (cases rule: wf_re.cases)
    case Nil
    with less.prems(2) show ?thesis by (auto intro: wf_re.Nil)
  next
    case (Lit c s')
    then have "c \<noteq> BS" by (auto simp: special_def)
    then have "brace_match close (c # s') = None" by (rule brace_match_not_BS)
    from Replace_Cons_None[OF this] less.prems(2) Lit(1) obtain out' where
      o: "out = c # out'" "ReplaceAllStringFunc close name_of repl s' = Inr (out', names)" by blast
    from IH[OF _ Lit(3) o(2)] Lit(1) have "wf_re out'" by simp
    with o(1) Lit(2) show ?thesis by (auto intro: wf_re.Lit)
  next
    case (Esc c s')
    show ?thesis
    proof (cases "brace_match close s")
      case None
      from Replace_Cons_None[OF None[unfolded Esc(1)]] less.prems(2) Esc(1) obtain out1 where
        o1: "out = BS # out1" "ReplaceAllStringFunc close name_of repl (c # s') = Inr (out1, names)"
        by blast
      have "brace_match close (c # s') = None"
      proof (cases "prefix [BS, CHR ''{''] (c # s')")
        case True
        then obtain s'' where "s' = CHR ''{'' # s''" by (cases s') auto
        with Esc(3) show ?thesis by (simp add: wf_re_no_brace_hd)
      next
        case False
        then show ?thesis unfolding brace_match_def by (simp only: if_False)
      qed
      from Replace_Cons_None[OF this o1(2)] obtain out2 where
        o2: "out1 = c # out2" "ReplaceAllStringFunc close name_of repl s' = Inr (out2, names)"
        by blast
      from IH[OF _ Esc(3) o2(2)] Esc(1) have "wf_re out2" by simp
      with o1(1) o2(1) Esc(2) show ?thesis by (auto intro: wf_re.Esc)
    next
      case (Some a)
      obtain m rest where a: "a = (m, rest)" by (cases a)
      from Some a have bm: "brace_match close s = Some (m, rest)" by simp
      then have "\<exists>name. brace_name close [] s' = Some (name, rest)"
        unfolding Esc(1) by (auto simp: brace_match_def split: if_splits option.splits)
      then have wr: "wf_re rest" using brace_name_wf[OF cl Esc(3)] by blast
      from bm have len: "length rest < length s" by (rule brace_match_shorter)
      from Replace_Cons_Some[OF bm[unfolded Esc(1)]] less.prems(2) Esc(1) obtain out' name names' where
        o: "out = repl @ out'" "ReplaceAllStringFunc close name_of repl rest = Inr (out', names')"
        by blast
      from IH[OF len wr o(2)] have "wf_re out'" .
      then have "wf_re (repl @ out')" by (rule wrepl)
    with o(1) show ?thesis by simp
    qed
  next
    case (Any s')
    have "ReplaceAllStringFunc close name_of repl s =
        (case ReplaceAllStringFunc close name_of repl s' of
           Inl p \<Rightarrow> Inl p | Inr (out', names') \<Rightarrow> Inr (''(.+)'' @ out', names'))"
      unfolding Any(1) by (simp add: brace_match_not_BS split: sum.splits prod.splits)
    with less.prems(2) obtain out' where
      o: "out = ''(.+)'' @ out'" "ReplaceAllStringFunc close name_of repl s' = Inr (out', names)"
      by (auto split: sum.splits prod.splits)
    from IH[OF _ Any(2) o(2)] Any(1) have "wf_re out'" by simp
    then have "wf_re (''(.+)'' @ out')" by (rule wf_re.Any)
    with o(1) show ?thesis by simp
  next
    case (Seg s')
    have "ReplaceAllStringFunc close name_of repl s =
        (case ReplaceAllStringFunc close name_of repl s' of
           Inl p \<Rightarrow> Inl p | Inr (out', names') \<Rightarrow> Inr (''([^/]+)'' @ out', names'))"
      unfolding Seg(1) by (simp add: brace_match_not_BS split: sum.splits prod.splits)
    with less.prems(2) obtain out' where
      o: "out = ''([^/]+)'' @ out'" "ReplaceAllStringFunc close name_of repl s' = Inr (out', names)"
      by (auto split: sum.splits prod.splits)
    from IH[OF _ Seg(2) o(2)] Seg(1) have "wf_re out'" by simp
    then have "wf_re (''([^/]+)'' @ out')" by (rule wf_re.Seg)
    with o(1) show ?thesis by simp
  qed
qed

lemma patternToRegex_compiles:
  assumes "patternToRegex p = Inr (re, names)"
  shows "\<exists>regex. MustCompile re = Some regex"
proof -
  from assms obtain e1 n1 e2 n2 where
    r1: "ReplaceAllStringFunc r1_close r1_name ''(.+)'' (QuoteMeta p) = Inr (e1, n1)" and
    r2: "ReplaceAllStringFunc r2_close r2_name ''([^/]+)'' e1 = Inr (e2, n2)" and
    re: "re = ''^'' @ e2 @ ''$''"
    by (auto simp: patternToRegex_def split: sum.splits prod.splits)
  have "wf_re e1" using wf_re_QuoteMeta r1 by (rule Replace_wf[rotated 2]) simp_all
  then have "wf_re e2" using r2 by (rule Replace_wf[rotated 2]) simp_all
  then show ?thesis unfolding re using wf_re_parse by (simp add: MustCompile_def)
qed


subsection \<open>The matcher\<close>

text \<open>
  C1. The claim: the wildcard names patternToRegex returns are in the order of the capture
  groups, so the i-th wildcard of the template receives the text of the i-th group, also
  when a single-segment wildcard stands left of a multi-segment one. The code collects
  the names of all \<^verbatim>\<open>{name=**}\<close> wildcards in its first pass and those of the
  \<^verbatim>\<open>{name}\<close> wildcards in its second, so for the template \<^verbatim>\<open>{a}/{b=**}\<close> the names
  come out as b, a while the groups stand in the order a, b: on the path \<^verbatim>\<open>x/y/z\<close> the
  parameter b receives \<^verbatim>\<open>x\<close> and the parameter a receives \<^verbatim>\<open>y/z\<close>.
\<close>

theorem patternToRegex_names_out_of_order:
  "patternToRegex ''{a}/{b=**}'' = Inr (''^([^/]+)/(.+)$'', [''b'', ''a'']) \<and>
   matchURI ''x/y/z'' [(''{a}/{b=**}'', ''T'')] =
     Inr (Some \<lparr>QueryInputName = ''T'', Params = [(''b'', ''x''), (''a'', ''y/z'')]\<rparr>)"
  by code_simp




text \<open>
  C4, as stated: two calls with the same path and table return the same result, also when
  more than one wildcard template matches. It fails: the loop returns the first template
  that matches in the iteration order of the map, which Go does not fix. The two lists
  below are two iteration orders of one table.
\<close>

theorem matchURI_depends_on_iteration_order:
  "distinct (map fst [(''a/{x}'', ''T1''), (''{y}/b'', ''T2'')]) \<and>
   set [(''a/{x}'', ''T1''), (''{y}/b'', ''T2'')] = set [(''{y}/b'', ''T2''), (''a/{x}'', ''T1'')] \<and>
   matchURI ''a/b'' [(''a/{x}'', ''T1''), (''{y}/b'', ''T2'')] =
     Inr (Some \<lparr>QueryInputName = ''T1'', Params = [(''x'', ''b'')]\<rparr>) \<and>
   matchURI ''a/b'' [(''{y}/b'', ''T2''), (''a/{x}'', ''T1'')] =
     Inr (Some \<lparr>QueryInputName = ''T2'', Params = [(''y'', ''a'')]\<rparr>)"
  by code_simp

text \<open>
  C4, amended. matchURI is a function of the path, the table and the order in which the
  table is iterated, and it changes nothing. Two iteration orders of one table give the
  same result whenever the trimmed path is a key of the table, or at most one entry of the
  table does not fall through in the loop.
\<close>

theorem matchURI_order_independent:
  assumes "distinct (map fst tbl)" and "distinct (map fst tbl')" and "set tbl = set tbl'"
    and "map_of tbl (TrimRight uri) \<noteq> None \<or>
       (\<forall>e\<in>set tbl. \<forall>e'\<in>set tbl.
           try_pattern (TrimRight uri) e \<noteq> Inr None \<longrightarrow>
           try_pattern (TrimRight uri) e' \<noteq> Inr None \<longrightarrow> e = e')"
  shows "matchURI uri tbl = matchURI uri tbl'"
proof -
  have m: "map_of tbl = map_of tbl'"
    using assms(1-3) by (simp add: map_of_inject_set)
  show ?thesis
  proof (cases "map_of tbl (TrimRight uri)")
    case None
    with assms(4) have "range_loop (TrimRight uri) tbl = range_loop (TrimRight uri) tbl'"
      using assms(3) by (intro range_loop_order) auto
    with None m show ?thesis by (simp add: matchURI_def)
  next
    case (Some q)
    with m show ?thesis by (simp add: matchURI_def)
  qed
qed

theorem matchURI_order_independent_witness:
  "matchURI ''a/q'' [(''a/{x}'', ''T1''), (''b/{y}'', ''T2'')] =
     matchURI ''a/q'' [(''b/{y}'', ''T2''), (''a/{x}'', ''T1'')] \<and>
   matchURI ''a/q'' [(''a/{x}'', ''T1''), (''b/{y}'', ''T2'')] =
     Inr (Some \<lparr>QueryInputName = ''T1'', Params = [(''x'', ''q'')]\<rparr>)"
proof -
  let ?tbl = "[(''a/{x}'', ''T1''), (''b/{y}'', ''T2'')]"
  let ?tbl' = "[(''b/{y}'', ''T2''), (''a/{x}'', ''T1'')]"
  have h1: "distinct (map fst ?tbl)" by simp
  have h2: "distinct (map fst ?tbl')" by simp
  have h3: "set ?tbl = set ?tbl'" by auto
  have t: "TrimRight ''a/q'' = ''a/q''" by code_simp
  have n: "try_pattern ''a/q'' (''b/{y}'', ''T2'') = Inr None" by code_simp
  have h4: "map_of ?tbl (TrimRight ''a/q'') \<noteq> None \<or>
       (\<forall>e\<in>set ?tbl. \<forall>e'\<in>set ?tbl.
           try_pattern (TrimRight ''a/q'') e \<noteq> Inr None \<longrightarrow>
           try_pattern (TrimRight ''a/q'') e' \<noteq> Inr None \<longrightarrow> e = e')"
    by (simp add: t n)
  have v: "matchURI ''a/q'' ?tbl = Inr (Some \<lparr>QueryInputName = ''T1'', Params = [(''x'', ''q'')]\<rparr>)"
    by code_simp
  from matchURI_order_independent[OF h1 h2 h3 h4] v show ?thesis by (rule conjI)
qed

text \<open>
  C5. When the trimmed path is a key of the table, matchURI returns the type name stored
  under that key and no parameters, whatever wildcard templates the table holds.
\<close>

theorem matchURI_exact_priority:
  "map_of tbl (TrimRight uri) = Some inputName \<Longrightarrow>
   matchURI uri tbl = Inr (Some \<lparr>QueryInputName = inputName, Params = []\<rparr>)"
  by (simp add: matchURI_def)

theorem matchURI_exact_priority_witness:
  "map_of [(''a/{x}'', ''T2''), (''a/b'', ''T1'')] (TrimRight ''a/b'') = Some ''T1'' \<and>
   matchURI ''a/b'' [(''a/{x}'', ''T2''), (''a/b'', ''T1'')] =
     Inr (Some \<lparr>QueryInputName = ''T1'', Params = []\<rparr>)"
proof -
  have h: "map_of [(''a/{x}'', ''T2''), (''a/b'', ''T1'')] (TrimRight ''a/b'') = Some ''T1''"
    by code_simp
  from h matchURI_exact_priority[OF h] show ?thesis by (rule conjI)
qed




subsection \<open>The message builder\<close>

lemma createMessageFromJSON_closes_once:
  assumes "MessageType env (QueryInputName match) = Some ty" and "New env ty = Some msg"
  shows "closeCount (snd (createMessageFromJSON env match r)) = closeCount r + 1"
  using assms
  by (auto simp: createMessageFromJSON_def Let_def Close_def split: prod.splits sum.splits)

text \<open>
  C2. The claim: the body is closed exactly once on every exit path of
  createMessageFromJSON. The \<^verbatim>\<open>defer r.Body.Close()\<close> stands after the two early
  returns, so when the type name is not registered, or no instance can be made, the
  function returns with the body as it received it: not closed. (On the two paths that
  reach the decoder it is closed once, see \<open>createMessageFromJSON_closes_once\<close>.)
\<close>

theorem createMessageFromJSON_early_return_leaves_body_open:
  "createMessageFromJSON (env\<lparr>MessageType := \<lambda>name. None\<rparr>) match r =
     (Inl UnknownRequestType, r) \<and>
   createMessageFromJSON (env\<lparr>MessageType := \<lambda>name. Some ty, New := \<lambda>t. None\<rparr>) match r =
     (Inl FailedToCreateInstance, r) \<and>
   closeCount (snd (createMessageFromJSON example_env
       \<lparr>QueryInputName = ''no.such.Type'', Params = []\<rparr>
       \<lparr>content = ''{}'', bytesRead = 0, closeCount = 0\<rparr>)) = 0"
  by (simp add: createMessageFromJSON_def example_env_def)


text \<open>
  C8. When the registry does not resolve the type name of the match, both builders return
  the error \<^verbatim>\<open>unknown request type\<close>; they are total functions of the model, and
  on this path they call nothing that could panic.
\<close>

theorem unknown_type_is_an_error:
  "MessageType env (QueryInputName match) = None \<Longrightarrow>
   fst (createMessageFromJSON env match r) = Inl UnknownRequestType \<and>
   createMessage env match = Inl UnknownRequestType"
  by (simp add: createMessageFromJSON_def createMessage_def)

theorem unknown_type_is_an_error_witness:
  "MessageType example_env (QueryInputName \<lparr>QueryInputName = ''no.such.Type'', Params = [(''a'', ''1'')]\<rparr>) = None \<and>
   fst (createMessageFromJSON example_env \<lparr>QueryInputName = ''no.such.Type'', Params = [(''a'', ''1'')]\<rparr>
          \<lparr>content = ''{}'', bytesRead = 0, closeCount = 0\<rparr>) = Inl UnknownRequestType \<and>
   createMessage example_env \<lparr>QueryInputName = ''no.such.Type'', Params = [(''a'', ''1'')]\<rparr> =
     Inl UnknownRequestType"
proof -
  let ?m = "\<lparr>QueryInputName = ''no.such.Type'', Params = [(''a'', ''1'')]\<rparr>"
  have h: "MessageType example_env (QueryInputName ?m) = None"
    by (simp add: example_env_def)
  from unknown_type_is_an_error[OF h, of "\<lparr>content = ''{}'', bytesRead = 0, closeCount = 0\<rparr>"] h
  show ?thesis by simp
qed



end
